theory Spec2Isabelle
  imports Main
begin

section \<open>Python values: exceptions and outcomes of mutating calls\<close>

text \<open>
  The exceptions the modelled code can raise. \<open>KeyError\<close> and \<open>ValueError\<close> carry
  the argument they are raised with.
\<close>

datatype py_error = IndexError | TypeError | KeyError string | ValueError string

text \<open>
  A method of the source mutates its object in place and either returns or raises. A call
  that raises may already have written some fields, so both outcomes carry the state the
  object is left in.
\<close>

datatype 's outcome = Returns 's | Raises py_error 's

fun state_of :: "'s outcome \<Rightarrow> 's" where
  "state_of (Returns s) = s"
| "state_of (Raises e s) = s"

fun raised :: "'s outcome \<Rightarrow> py_error option" where
  "raised (Returns s) = None"
| "raised (Raises e s) = Some e"

text \<open>
  The index check of \<open>xs[i]\<close> on a list: an index that is \<open>None\<close> is a
  \<open>TypeError\<close>, an index past the end an \<open>IndexError\<close>; otherwise the element read
  or written is \<open>xs ! n\<close>. Indices are natural numbers throughout: the constructor
  starts the cursor at \<open>None\<close> and \<open>0\<close>, and every method decrements a line or an
  offset only behind a \<open>> 0\<close> test, so Python's negative indices never arise.
\<close>

definition list_index :: "'a list \<Rightarrow> nat option \<Rightarrow> py_error + nat" where
  "list_index xs i =
     (case i of
        None \<Rightarrow> Inl TypeError
      | Some n \<Rightarrow> if n < length xs then Inr n else Inl IndexError)"

text \<open>The slices \<open>text[:k]\<close> and \<open>text[k:]\<close>; a bound that is \<open>None\<close> is no bound.\<close>

definition slice_to :: "nat option \<Rightarrow> 'a list \<Rightarrow> 'a list" where
  "slice_to k xs = (case k of None \<Rightarrow> xs | Some n \<Rightarrow> take n xs)"

definition slice_from :: "nat option \<Rightarrow> 'a list \<Rightarrow> 'a list" where
  "slice_from k xs = (case k of None \<Rightarrow> xs | Some n \<Rightarrow> drop n xs)"

text \<open>\<open>del xs[a:b]\<close>: nothing is deleted unless \<open>a < b\<close>; both bounds stop at the end.\<close>

definition del_slice :: "nat \<Rightarrow> nat \<Rightarrow> 'a list \<Rightarrow> 'a list" where
  "del_slice a b xs = (if a < b then take a xs @ drop b xs else xs)"

text \<open>\<open>xs.insert(i, x)\<close>: an index past the end appends.\<close>

definition list_insert :: "nat \<Rightarrow> 'a \<Rightarrow> 'a list \<Rightarrow> 'a list" where
  "list_insert i x xs = take i xs @ [x] @ drop i xs"

text \<open>
  \<open>a <= b\<close> on two values that are each an \<open>int\<close> or \<open>None\<close>, and on two pairs of
  them. Python compares tuples by the first position where they differ (by \<open>==\<close>) and
  orders only that position; with \<open>None\<close> on either side of it the order is a
  \<open>TypeError\<close>. Tuples equal in both positions are \<open><=\<close> without any ordering.
\<close>

definition py_le :: "nat option \<Rightarrow> nat option \<Rightarrow> py_error + bool" where
  "py_le x y =
     (case x of
        None \<Rightarrow> Inl TypeError
      | Some m \<Rightarrow> (case y of None \<Rightarrow> Inl TypeError | Some n \<Rightarrow> Inr (m \<le> n)))"

definition tuple_le ::
  "nat option \<times> nat option \<Rightarrow> nat option \<times> nat option \<Rightarrow> py_error + bool" where
  "tuple_le p q =
     (if fst p \<noteq> fst q then py_le (fst p) (fst q)
      else if snd p \<noteq> snd q then py_le (snd p) (snd q)
      else Inr True)"

section \<open>Selection (dialogs.py, class Selection)\<close>

text \<open>
  The four fields of the class. \<open>reset\<close> sets all of them to \<open>None\<close>.
\<close>

record selection =
  start_line :: "nat option"
  start_offset :: "nat option"
  end_line :: "nat option"
  end_offset :: "nat option"

definition reset :: "selection \<Rightarrow> selection" where
  "reset s = s\<lparr>start_line := None, start_offset := None,
               end_line := None, end_offset := None\<rparr>"

definition set_anchor :: "nat \<Rightarrow> nat \<Rightarrow> selection \<Rightarrow> selection" where
  "set_anchor line offset s =
     s\<lparr>start_line := Some line, end_line := Some line,
       start_offset := Some offset, end_offset := Some offset\<rparr>"

text \<open>
  \<open>update_end\<close> is called with the dialog's \<open>cursor_line\<close>, which is an
  \<open>Optional[int]\<close>, so its line argument is one here too.
\<close>

definition update_end :: "nat option \<Rightarrow> nat \<Rightarrow> selection \<Rightarrow> selection" where
  "update_end line offset s = s\<lparr>end_line := line, end_offset := Some offset\<rparr>"

definition is_active :: "selection \<Rightarrow> bool" where
  "is_active s \<longleftrightarrow>
     start_line s \<noteq> None \<and>
     (start_line s \<noteq> end_line s \<or> start_offset s \<noteq> end_offset s)"

definition ordered ::
  "selection \<Rightarrow> py_error + ((nat option \<times> nat option) \<times> (nat option \<times> nat option))" where
  "ordered s =
     (case tuple_le (start_line s, start_offset s) (end_line s, end_offset s) of
        Inl e \<Rightarrow> Inl e
      | Inr b \<Rightarrow>
          if b then Inr ((start_line s, start_offset s), (end_line s, end_offset s))
          else Inr ((end_line s, end_offset s), (start_line s, start_offset s)))"

section \<open>The text buffer (dialogs.py, class Dialog)\<close>

text \<open>
  The buffer part of a \<open>Dialog\<close>. A line is a child \<open>Dialog\<close> of which the buffer
  methods read only \<open>value or ""\<close> and write only \<open>value\<close>, always with a \<open>str\<close>; the
  model keeps each line as that string, so \<open>unnamed\<close> is the list that \<open>lines()\<close>
  returns. A \<open>char\<close> stands for one code point (below 256), and \<open>length\<close> is Python's
  \<open>len\<close>. The tree fields (\<open>_dlg_name\<close>, \<open>parent\<close>, \<open>key_q\<close>, \<open>_named\<close>) are
  neither read nor written by the buffer methods and are left out.
\<close>

record dialog =
  unnamed :: "string list"
  cursor_line :: "nat option"
  cursor_offset :: nat
  selection :: selection

definition add_line :: "string \<Rightarrow> dialog \<Rightarrow> dialog" where
  "add_line v d =
     d\<lparr>unnamed := unnamed d @ [v],
       cursor_line := (if cursor_line d = None then Some 0 else cursor_line d)\<rparr>"

definition lines :: "dialog \<Rightarrow> string list" where
  "lines d = unnamed d"

subsection \<open>Helpers\<close>

definition update_selection :: "bool \<Rightarrow> nat \<Rightarrow> nat \<Rightarrow> dialog \<Rightarrow> dialog" where
  "update_selection is_shifted prev_line prev_offset d =
     (if is_shifted then
        (let s1 = (if \<not> is_active (selection d)
                   then set_anchor prev_line prev_offset (selection d)
                   else selection d)
         in d\<lparr>selection := update_end (cursor_line d) (cursor_offset d) s1\<rparr>)
      else d\<lparr>selection := reset (selection d)\<rparr>)"

text \<open>
  The last two statements of \<open>_delete_selection\<close>: the cursor goes to the first endpoint
  and the selection is reset. \<open>cursor_offset\<close> is an \<open>int\<close>; an endpoint with a line
  but no offset (which no method of \<open>Selection\<close> produces: offsets are written together
  with their lines) would put \<open>None\<close> there, and the model stops with \<open>TypeError\<close>
  instead.
\<close>

definition finish_delete :: "nat option \<Rightarrow> nat option \<Rightarrow> dialog \<Rightarrow> dialog outcome" where
  "finish_delete s_line s_off d =
     (case s_off of
        None \<Rightarrow> Raises TypeError d
      | Some k \<Rightarrow>
          Returns (d\<lparr>cursor_line := s_line, cursor_offset := k,
                     selection := reset (selection d)\<rparr>))"

definition delete_selection :: "dialog \<Rightarrow> dialog outcome" where
  "delete_selection d =
     (case ordered (selection d) of
        Inl e \<Rightarrow> Raises e d
      | Inr ((s_line, s_off), (e_line, e_off)) \<Rightarrow>
          if s_line = e_line then
            (case list_index (unnamed d) s_line of
               Inl e \<Rightarrow> Raises e d
             | Inr sl \<Rightarrow>
                 (let text = unnamed d ! sl
                  in finish_delete s_line s_off
                       (d\<lparr>unnamed := (unnamed d)[sl :=
                            slice_to s_off text @ slice_from e_off text]\<rparr>)))
          else
            (case list_index (unnamed d) s_line of
               Inl e \<Rightarrow> Raises e d
             | Inr sl \<Rightarrow>
                 (let d1 = d\<lparr>unnamed := (unnamed d)[sl := slice_to s_off (unnamed d ! sl)]\<rparr>
                  in case list_index (unnamed d1) e_line of
                       Inl e \<Rightarrow> Raises e d1
                     | Inr el \<Rightarrow>
                         (let last_right = slice_from e_off (unnamed d1 ! el);
                              u2 = del_slice (sl + 1) (el + 1) (unnamed d1);
                              u3 = u2[sl := (u2 ! sl) @ last_right]
                          in finish_delete s_line s_off (d1\<lparr>unnamed := u3\<rparr>)))))"

subsection \<open>Cursor movement\<close>

text \<open>
  Each method returns at once when \<open>cursor_line\<close> is \<open>None\<close>. \<open>move_left\<close> and
  \<open>move_up\<close> decrement \<open>cursor_line\<close> before they index the list, so an
  \<open>IndexError\<close> there leaves the decremented line behind.
\<close>

definition move_left :: "bool \<Rightarrow> dialog \<Rightarrow> dialog outcome" where
  "move_left is_shifted d =
     (case cursor_line d of
        None \<Rightarrow> Returns d
      | Some prev_line \<Rightarrow>
          (let prev_off = cursor_offset d in
           if cursor_offset d > 0 then
             Returns (update_selection is_shifted prev_line prev_off
                        (d\<lparr>cursor_offset := cursor_offset d - 1\<rparr>))
           else if prev_line > 0 then
             (let d1 = d\<lparr>cursor_line := Some (prev_line - 1)\<rparr>
              in case list_index (unnamed d1) (cursor_line d1) of
                   Inl e \<Rightarrow> Raises e d1
                 | Inr n \<Rightarrow>
                     Returns (update_selection is_shifted prev_line prev_off
                                (d1\<lparr>cursor_offset := length (unnamed d1 ! n)\<rparr>)))
           else Returns (update_selection is_shifted prev_line prev_off d)))"

definition move_right :: "bool \<Rightarrow> dialog \<Rightarrow> dialog outcome" where
  "move_right is_shifted d =
     (case cursor_line d of
        None \<Rightarrow> Returns d
      | Some prev_line \<Rightarrow>
          (let prev_off = cursor_offset d in
           case list_index (unnamed d) (cursor_line d) of
             Inl e \<Rightarrow> Raises e d
           | Inr n \<Rightarrow>
               (let line_text = unnamed d ! n in
                if cursor_offset d < length line_text then
                  Returns (update_selection is_shifted prev_line prev_off
                             (d\<lparr>cursor_offset := cursor_offset d + 1\<rparr>))
                else if prev_line + 1 < length (unnamed d) then
                  Returns (update_selection is_shifted prev_line prev_off
                             (d\<lparr>cursor_line := Some (prev_line + 1), cursor_offset := 0\<rparr>))
                else Returns (update_selection is_shifted prev_line prev_off d))))"

definition move_up :: "bool \<Rightarrow> dialog \<Rightarrow> dialog outcome" where
  "move_up is_shifted d =
     (case cursor_line d of
        None \<Rightarrow> Returns d
      | Some prev_line \<Rightarrow>
          if prev_line = 0 then Returns d
          else
            (let prev_off = cursor_offset d;
                 d1 = d\<lparr>cursor_line := Some (prev_line - 1)\<rparr>
             in case list_index (unnamed d1) (cursor_line d1) of
                  Inl e \<Rightarrow> Raises e d1
                | Inr n \<Rightarrow>
                    (let line_len = length (unnamed d1 ! n)
                     in Returns (update_selection is_shifted prev_line prev_off
                                   (d1\<lparr>cursor_offset := min (cursor_offset d1) line_len\<rparr>)))))"

definition move_down :: "bool \<Rightarrow> dialog \<Rightarrow> dialog outcome" where
  "move_down is_shifted d =
     (case cursor_line d of
        None \<Rightarrow> Returns d
      | Some prev_line \<Rightarrow>
          if prev_line + 1 \<ge> length (unnamed d) then Returns d
          else
            (let prev_off = cursor_offset d;
                 d1 = d\<lparr>cursor_line := Some (prev_line + 1)\<rparr>
             in case list_index (unnamed d1) (cursor_line d1) of
                  Inl e \<Rightarrow> Raises e d1
                | Inr n \<Rightarrow>
                    (let line_len = length (unnamed d1 ! n)
                     in Returns (update_selection is_shifted prev_line prev_off
                                   (d1\<lparr>cursor_offset := min (cursor_offset d1) line_len\<rparr>)))))"

definition move_home :: "bool \<Rightarrow> dialog \<Rightarrow> dialog outcome" where
  "move_home is_shifted d =
     (case cursor_line d of
        None \<Rightarrow> Returns d
      | Some prev_line \<Rightarrow>
          (let prev_off = cursor_offset d
           in Returns (update_selection is_shifted prev_line prev_off
                         (d\<lparr>cursor_offset := 0\<rparr>))))"

definition move_end :: "bool \<Rightarrow> dialog \<Rightarrow> dialog outcome" where
  "move_end is_shifted d =
     (case cursor_line d of
        None \<Rightarrow> Returns d
      | Some prev_line \<Rightarrow>
          (let prev_off = cursor_offset d
           in case list_index (unnamed d) (cursor_line d) of
                Inl e \<Rightarrow> Raises e d
              | Inr n \<Rightarrow>
                  Returns (update_selection is_shifted prev_line prev_off
                             (d\<lparr>cursor_offset := length (unnamed d ! n)\<rparr>))))"

subsection \<open>Editing\<close>

text \<open>
  \<open>insert_char\<close> and \<open>split_line\<close> begin alike: a dialog without a cursor line gets an
  empty line and the cursor line \<open>0\<close>.
\<close>

definition ensure_line :: "dialog \<Rightarrow> dialog" where
  "ensure_line d =
     (if cursor_line d = None then (add_line [] d)\<lparr>cursor_line := Some 0\<rparr> else d)"

text \<open>
  The last four statements of \<open>insert_char\<close>. \<open>ch\<close> is a \<open>str\<close>: the source inserts
  all of it and advances the offset by one.
\<close>

definition insert_at_cursor :: "string \<Rightarrow> dialog \<Rightarrow> dialog outcome" where
  "insert_at_cursor ch d =
     (case list_index (unnamed d) (cursor_line d) of
        Inl e \<Rightarrow> Raises e d
      | Inr n \<Rightarrow>
          (let text = unnamed d ! n
           in Returns (d\<lparr>unnamed := (unnamed d)[n :=
                          take (cursor_offset d) text @ ch @ drop (cursor_offset d) text],
                        cursor_offset := cursor_offset d + 1\<rparr>)))"

definition insert_char :: "string \<Rightarrow> dialog \<Rightarrow> dialog outcome" where
  "insert_char ch d =
     (let d1 = ensure_line d in
      if is_active (selection d1) then
        (case delete_selection d1 of
           Raises e d2 \<Rightarrow> Raises e d2
         | Returns d2 \<Rightarrow> insert_at_cursor ch d2)
      else insert_at_cursor ch d1)"

text \<open>\<open>del xs[n]\<close> at an index in range.\<close>

definition del_item :: "nat \<Rightarrow> 'a list \<Rightarrow> 'a list" where
  "del_item n xs = take n xs @ drop (n + 1) xs"

definition delete_left :: "dialog \<Rightarrow> dialog outcome" where
  "delete_left d =
     (if is_active (selection d) then delete_selection d
      else
        (case cursor_line d of
           None \<Rightarrow> Returns d
         | Some cl \<Rightarrow>
             if cl = 0 \<and> cursor_offset d = 0 then Returns d
             else
               (case list_index (unnamed d) (cursor_line d) of
                  Inl e \<Rightarrow> Raises e d
                | Inr n \<Rightarrow>
                    if cursor_offset d > 0 then
                      (let text = unnamed d ! n
                       in Returns (d\<lparr>unnamed := (unnamed d)[n :=
                                      take (cursor_offset d - 1) text @
                                      drop (cursor_offset d) text],
                                    cursor_offset := cursor_offset d - 1\<rparr>))
                    else
                      (case list_index (unnamed d) (Some (cl - 1)) of
                         Inl e \<Rightarrow> Raises e d
                       | Inr p \<Rightarrow>
                           (let prev_len = length (unnamed d ! p);
                                u1 = (unnamed d)[p := (unnamed d ! p) @ (unnamed d ! n)]
                            in Returns (d\<lparr>unnamed := del_item cl u1,
                                         cursor_line := Some (cl - 1),
                                         cursor_offset := prev_len\<rparr>))))))"

definition delete_right :: "dialog \<Rightarrow> dialog outcome" where
  "delete_right d =
     (if is_active (selection d) then delete_selection d
      else
        (case cursor_line d of
           None \<Rightarrow> Returns d
         | Some cl \<Rightarrow>
             (case list_index (unnamed d) (cursor_line d) of
                Inl e \<Rightarrow> Raises e d
              | Inr n \<Rightarrow>
                  (let text = unnamed d ! n in
                   if cursor_offset d < length text then
                     Returns (d\<lparr>unnamed := (unnamed d)[n :=
                                take (cursor_offset d) text @
                                drop (cursor_offset d + 1) text]\<rparr>)
                   else if cl + 1 < length (unnamed d) then
                     (let u1 = (unnamed d)[n := text @ (unnamed d ! (cl + 1))]
                      in Returns (d\<lparr>unnamed := del_item (cl + 1) u1\<rparr>))
                   else Returns d))))"

definition split_line :: "dialog \<Rightarrow> dialog outcome" where
  "split_line d =
     (let d1 = ensure_line d in
      case list_index (unnamed d1) (cursor_line d1) of
        Inl e \<Rightarrow> Raises e d1
      | Inr n \<Rightarrow>
          (let text = unnamed d1 ! n;
               before = take (cursor_offset d1) text;
               after = drop (cursor_offset d1) text
           in Returns (d1\<lparr>unnamed := list_insert (n + 1) after ((unnamed d1)[n := before]),
                         cursor_line := Some (n + 1),
                         cursor_offset := 0\<rparr>)))"

subsection \<open>Sequences of calls\<close>

text \<open>
  The calls a client can make on the buffer, and the run of a sequence of them: the
  outcome of every call made, in order. A call that raises ends the run, as the
  exception would end the caller.
\<close>

datatype buffer_op =
    Move_left bool | Move_right bool | Move_up bool | Move_down bool
  | Move_home bool | Move_end bool
  | Add_line string | Insert_char string | Delete_left | Delete_right | Split_line
  | Delete_selection

fun apply_op :: "buffer_op \<Rightarrow> dialog \<Rightarrow> dialog outcome" where
  "apply_op (Move_left b) d = move_left b d"
| "apply_op (Move_right b) d = move_right b d"
| "apply_op (Move_up b) d = move_up b d"
| "apply_op (Move_down b) d = move_down b d"
| "apply_op (Move_home b) d = move_home b d"
| "apply_op (Move_end b) d = move_end b d"
| "apply_op (Add_line v) d = Returns (add_line v d)"
| "apply_op (Insert_char ch) d = insert_char ch d"
| "apply_op Delete_left d = delete_left d"
| "apply_op Delete_right d = delete_right d"
| "apply_op Split_line d = split_line d"
| "apply_op Delete_selection d = delete_selection d"

fun run_ops :: "buffer_op list \<Rightarrow> dialog \<Rightarrow> dialog outcome list" where
  "run_ops [] d = []"
| "run_ops (x # xs) d =
     (case apply_op x d of
        Returns d' \<Rightarrow> Returns d' # run_ops xs d'
      | Raises e d' \<Rightarrow> [Raises e d'])"

section \<open>Keys and dispatch (anchor.py)\<close>

text \<open>Python string methods used on keys.\<close>

text \<open>
  \<open>str.lower()\<close> on code points below 256: the upper-case letters are \<open>A\<close> to \<open>Z\<close>
  (65 to 90) and the Latin-1 capitals 192 to 222 without the multiplication sign 215;
  the lower-case letter is 32 above.
\<close>

definition lower_char :: "char \<Rightarrow> char" where
  "lower_char c =
     (let n = (of_char c :: nat) in
      if (65 \<le> n \<and> n \<le> 90) \<or> (192 \<le> n \<and> n \<le> 214) \<or> (216 \<le> n \<and> n \<le> 222)
      then char_of (n + 32) else c)"

definition lower :: "string \<Rightarrow> string" where
  "lower s = map lower_char s"

text \<open>\<open>sep.join(parts)\<close>.\<close>

fun join :: "string \<Rightarrow> string list \<Rightarrow> string" where
  "join sep [] = []"
| "join sep [x] = x"
| "join sep (x # y # ys) = x @ sep @ join sep (y # ys)"

text \<open>
  \<open>s.replace(old, new)\<close>: every occurrence of \<open>old\<close>, found from the left without
  overlap. An empty \<open>old\<close> matches before every character and at the end.
\<close>

fun replace :: "string \<Rightarrow> string \<Rightarrow> string \<Rightarrow> string" where
  "replace old new [] = (if old = [] then new else [])"
| "replace old new (c # cs) =
     (if old = [] then new @ c # replace old new cs
      else if take (length old) (c # cs) = old
      then new @ replace old new (drop (length old - 1) cs)
      else c # replace old new cs)"

record modified_key =
  key :: string
  ctrl :: bool
  alt :: bool
  shift :: bool
  meta :: bool

definition canon :: "modified_key \<Rightarrow> string" where
  "canon mk =
     (let parts = [];
          parts = (if ctrl mk then parts @ [''control''] else parts);
          parts = (if alt mk then parts @ [''alt''] else parts);
          parts = (if shift mk then parts @ [''shift''] else parts);
          parts = (if meta mk then parts @ [''meta''] else parts);
          parts = parts @ [lower (key mk)]
      in join ''+'' parts)"

text \<open>
  \<open>_dispatch\<close> ends in one of two calls: the bound handler \<open>func(mk)\<close> or
  \<open>self.unbound_key(mk)\<close>. What the handler then does is the applet's business; the
  model returns the call that is made. The values of \<open>_bindings\<close> are bound methods,
  which are true in a condition, so \<open>not func\<close> is \<open>func is None\<close>.
\<close>

datatype 'h call = Func 'h modified_key | Unbound_key modified_key

definition dispatch :: "(string \<rightharpoonup> 'h) \<Rightarrow> modified_key \<Rightarrow> 'h call" where
  "dispatch bindings mk =
     (let canon_mk = canon mk;
          func = bindings canon_mk;
          func = (if func = None \<and> shift mk
                  then (let canon_noshift = replace ''shift+'' [] canon_mk
                        in bindings canon_noshift)
                  else func)
      in case func of
           Some f \<Rightarrow> Func f mk
         | None \<Rightarrow> Unbound_key mk)"

section \<open>The applet router (anchor.py, class Anchor)\<close>

text \<open>
  The registries and the focus of an \<open>Anchor\<close>. An applet class is the function from
  a name to the applet it constructs. Starting an applet's thread and the two focus hooks
  act outside the anchor; the model records them, in order, in \<open>calls\<close>. The listener
  thread, the raw key queue and the running flag are not touched by registration and
  activation and are left out.
\<close>

datatype applet_call = Start string | On_deactivate string | On_activate string

record 'a anchor =
  applets :: "string \<rightharpoonup> 'a"
  applet_classes :: "string \<rightharpoonup> (string \<Rightarrow> 'a)"
  active_name :: "string option"
  calls :: "applet_call list"

definition register_applet ::
  "string \<Rightarrow> (string \<Rightarrow> 'a) \<Rightarrow> 'a anchor \<Rightarrow> 'a anchor outcome" where
  "register_applet name klass a =
     (if applet_classes a name \<noteq> None
      then Raises (ValueError (''Applet '' @ [CHR 0x27] @ name @ [CHR 0x27] @ '' already registered'')) a
      else Returns (a\<lparr>applet_classes := (applet_classes a)(name \<mapsto> klass)\<rparr>))"

text \<open>
  \<open>if self._active_name and ...\<close>: a name that is \<open>None\<close> or the empty string is false.
\<close>

definition activate :: "string \<Rightarrow> 'a anchor \<Rightarrow> 'a anchor outcome" where
  "activate name a =
     (case applet_classes a name of
        None \<Rightarrow> Raises (KeyError name) a
      | Some klass \<Rightarrow>
          (let a1 = (if applets a name = None
                     then a\<lparr>applets := (applets a)(name \<mapsto> klass name),
                            calls := calls a @ [Start name]\<rparr>
                     else a);
               a2 = (case active_name a1 of
                       None \<Rightarrow> a1
                     | Some n \<Rightarrow>
                         if n \<noteq> [] \<and> applets a1 n \<noteq> None
                         then a1\<lparr>calls := calls a1 @ [On_deactivate n]\<rparr>
                         else a1);
               a3 = a2\<lparr>active_name := Some name\<rparr>
           in Returns (a3\<lparr>calls := calls a3 @ [On_activate name]\<rparr>)))"

section \<open>Saving (applets/editor.py, EditorApplet.command_save)\<close>

text \<open>
  The editor is a buffer with the file name of its last save. \<open>command_save\<close> writes
  the lines, joined by the newline character, to that name, or to the default name on
  save-as or on the first save. Storage is a map from names to contents; the write itself
  is taken to succeed.
\<close>

record editor =
  buffer :: dialog
  filename :: "string option"

definition DEFAULT_NAME :: string where
  "DEFAULT_NAME = ''untitled.txt''"

definition newline :: char where
  "newline = CHR 0x0A"

definition command_save ::
  "modified_key \<Rightarrow> editor \<times> (string \<rightharpoonup> string) \<Rightarrow> editor \<times> (string \<rightharpoonup> string)" where
  "command_save mk st =
     (case st of (e, files) \<Rightarrow>
        (let path = (if shift mk then DEFAULT_NAME
                     else case filename e of None \<Rightarrow> DEFAULT_NAME | Some p \<Rightarrow> p)
         in (e\<lparr>filename := Some path\<rparr>,
             files(path \<mapsto> join [newline] (lines (buffer e))))))"

text \<open>
  Reading back is not part of the source. \<open>split_on c s\<close> is \<open>s.split(c)\<close> for a
  one-character separator: the pieces of \<open>s\<close> between the occurrences of \<open>c\<close>, of
  which there is always at least one.
\<close>

fun split_on :: "char \<Rightarrow> string \<Rightarrow> string list" where
  "split_on c [] = [[]]"
| "split_on c (x # xs) =
     (if x = c then [] # split_on c xs
      else (case split_on c xs of
              [] \<Rightarrow> [[x]]
            | w # ws \<Rightarrow> (x # w) # ws))"

section \<open>Well-formed buffers and example states\<close>

text \<open>
  The cursor line of the data model: unset, or the index of a line of the buffer.
\<close>

definition cursor_in_range :: "dialog \<Rightarrow> bool" where
  "cursor_in_range d =
     (case cursor_line d of None \<Rightarrow> True | Some l \<Rightarrow> l < length (unnamed d))"

text \<open>The selection of a new \<open>Selection()\<close>, and one running from one point to another.\<close>

definition no_selection :: selection where
  "no_selection =
     \<lparr>start_line = None, start_offset = None, end_line = None, end_offset = None\<rparr>"

definition span :: "nat \<times> nat \<Rightarrow> nat \<times> nat \<Rightarrow> selection" where
  "span a b =
     \<lparr>start_line = Some (fst a), start_offset = Some (snd a),
      end_line = Some (fst b), end_offset = Some (snd b)\<rparr>"

text \<open>
  A new \<open>Dialog()\<close>, and the buffer of a new \<open>EditorApplet\<close>, whose constructor adds
  an empty line when there is none.
\<close>

definition new_dialog :: dialog where
  "new_dialog =
     \<lparr>unnamed = [], cursor_line = None, cursor_offset = 0, selection = no_selection\<rparr>"

definition new_editor_buffer :: dialog where
  "new_editor_buffer =
     (if unnamed new_dialog = [] then add_line [] new_dialog else new_dialog)"

text \<open>A new \<open>Dialog()\<close>, with a selection left set although it has no lines.\<close>

definition buffer_without_lines :: dialog where
  "buffer_without_lines =
     \<lparr>unnamed = [], cursor_line = None, cursor_offset = 0,
      selection = span (0, 0) (0, 1)\<rparr>"

text \<open>
  The lines \<open>abc\<close> and \<open>def\<close>, the cursor at the end of the first, the selection from
  there to offset 1 of the second.
\<close>

definition buffer_abc_def :: dialog where
  "buffer_abc_def =
     \<lparr>unnamed = [''abc'', ''def''], cursor_line = Some 0, cursor_offset = 3,
      selection = span (0, 3) (1, 1)\<rparr>"

text \<open>The lines \<open>ab\<close> and \<open>cd\<close>, the cursor at the start of the second, no selection.\<close>

definition buffer_ab_cd :: dialog where
  "buffer_ab_cd =
     \<lparr>unnamed = [''ab'', ''cd''], cursor_line = Some 1, cursor_offset = 0,
      selection = no_selection\<rparr>"

text \<open>
  The lines \<open>ab\<close> and \<open>c\<close>, the cursor at the end of the first, the selection anchored
  there and empty.
\<close>

definition buffer_ab_c :: dialog where
  "buffer_ab_c =
     \<lparr>unnamed = [''ab'', ''c''], cursor_line = Some 0, cursor_offset = 2,
      selection = span (0, 2) (0, 2)\<rparr>"

text \<open>The line \<open>abc\<close> with its middle character selected and the cursor behind it.\<close>

definition buffer_abc_selected :: dialog where
  "buffer_abc_selected =
     \<lparr>unnamed = [''abc''], cursor_line = Some 0, cursor_offset = 2,
      selection = span (0, 1) (0, 2)\<rparr>"

text \<open>The key event of a shifted \<open>a\<close>.\<close>

definition shift_a :: modified_key where
  "shift_a = \<lparr>key = ''a'', ctrl = False, alt = False, shift = True, meta = False\<rparr>"

text \<open>
  An anchor with one registered applet class, \<open>editor\<close>, already activated; applets
  are stood for by their names.
\<close>

definition anchor_with_editor :: "string anchor" where
  "anchor_with_editor =
     \<lparr>applets = [''editor'' \<mapsto> ''editor''],
      applet_classes = [''editor'' \<mapsto> (\<lambda>name. name)],
      active_name = Some ''editor'',
      calls = [Start ''editor'', On_activate ''editor'']\<rparr>"

section \<open>Facts about the helpers\<close>

lemma reset_not_active: "\<not> is_active (reset s)"
  by (simp add: reset_def is_active_def)

lemma reset_eq_no_selection: "reset s = no_selection"
  by (simp add: reset_def no_selection_def)

lemma list_index_Inr: "list_index xs i = Inr n \<Longrightarrow> i = Some n \<and> n < length xs"
  by (auto simp: list_index_def split: option.splits if_splits)

lemma update_selection_fields [simp]:
  "unnamed (update_selection b pl po d) = unnamed d"
  "cursor_line (update_selection b pl po d) = cursor_line d"
  "cursor_offset (update_selection b pl po d) = cursor_offset d"
  by (simp_all add: update_selection_def Let_def)

lemma update_selection_unshifted_inactive:
  "\<not> is_active (selection (update_selection False pl po d))"
  by (simp add: update_selection_def reset_not_active)

lemma finish_delete_unnamed [simp]:
  "unnamed (state_of (finish_delete sl so d)) = unnamed d"
  by (simp add: finish_delete_def split: option.splits)

lemma finish_delete_Returns:
  "finish_delete sl so d = Returns d' \<Longrightarrow> selection d' = reset (selection d)"
  by (auto simp: finish_delete_def split: option.splits)

section \<open>Cursor movement without a cursor line\<close>

text \<open>
  Claim C10. On a buffer whose \<open>cursor_line\<close> is unset (a buffer that has no lines yet),
  each of \<open>move_left\<close>, \<open>move_right\<close>, \<open>move_up\<close>, \<open>move_down\<close>, \<open>move_home\<close> and
  \<open>move_end\<close> returns with the state as it was, whatever the extend flag: lines, cursor
  and selection are unchanged, so a non-extending move does not reset the selection
  there.
\<close>

theorem moves_without_cursor_line:
  assumes "cursor_line d = None"
  shows "move_left ext d = Returns d \<and> move_right ext d = Returns d \<and>
         move_up ext d = Returns d \<and> move_down ext d = Returns d \<and>
         move_home ext d = Returns d \<and> move_end ext d = Returns d"
  using assms
  by (simp add: move_left_def move_right_def move_up_def move_down_def move_home_def
      move_end_def)

theorem moves_without_cursor_line_witness:
  "cursor_line buffer_without_lines = None \<and>
   move_left False buffer_without_lines = Returns buffer_without_lines \<and>
   move_right True buffer_without_lines = Returns buffer_without_lines \<and>
   move_up False buffer_without_lines = Returns buffer_without_lines \<and>
   move_down True buffer_without_lines = Returns buffer_without_lines \<and>
   move_home False buffer_without_lines = Returns buffer_without_lines \<and>
   move_end False buffer_without_lines = Returns buffer_without_lines \<and>
   is_active (selection (state_of (move_left False buffer_without_lines)))"
proof -
  have h: "cursor_line buffer_without_lines = None"
    by (simp add: buffer_without_lines_def)
  have a: "is_active (selection buffer_without_lines)"
    by (simp add: buffer_without_lines_def span_def is_active_def)
  show ?thesis
    using h a
      moves_without_cursor_line [OF h, of False]
      moves_without_cursor_line [OF h, of True]
    by simp
qed

section \<open>Moves that do not extend\<close>

lemma move_left_unshifted_inactive:
  "\<not> is_active (selection d) \<Longrightarrow> \<not> is_active (selection (state_of (move_left False d)))"
  by (auto simp: move_left_def Let_def update_selection_unshifted_inactive
      split: option.splits sum.splits)

lemma move_right_unshifted_inactive:
  "\<not> is_active (selection d) \<Longrightarrow> \<not> is_active (selection (state_of (move_right False d)))"
  by (auto simp: move_right_def Let_def update_selection_unshifted_inactive
      split: option.splits sum.splits)

text \<open>
  On a buffer whose cursor line is a line of the buffer, \<open>move_left\<close> and \<open>move_right\<close>
  return, and the cursor line stays one; so a run of them makes every call.
\<close>

lemma move_left_returns:
  assumes "cursor_in_range d"
  shows "\<exists>d'. move_left b d = Returns d' \<and> cursor_in_range d'"
  using assms
  by (auto simp: move_left_def cursor_in_range_def list_index_def Let_def
      split: option.splits)

lemma move_right_returns:
  assumes "cursor_in_range d"
  shows "\<exists>d'. move_right b d = Returns d' \<and> cursor_in_range d'"
  using assms
  by (auto simp: move_right_def cursor_in_range_def list_index_def Let_def
      split: option.splits)

lemma run_of_left_right_complete:
  assumes "cursor_in_range d"
    and "set xs \<subseteq> range Move_left \<union> range Move_right"
  shows "length (run_ops xs d) = length xs \<and> list_all (\<lambda>r. raised r = None) (run_ops xs d)"
  using assms
proof (induction xs arbitrary: d)
  case Nil
  then show ?case by simp
next
  case (Cons x xs)
  from Cons.prems(2) have "x \<in> range Move_left \<union> range Move_right" by simp
  with Cons.prems(1) obtain d' where d': "apply_op x d = Returns d'" "cursor_in_range d'"
    using move_left_returns move_right_returns by fastforce
  from Cons.prems(2) have "set xs \<subseteq> range Move_left \<union> range Move_right" by simp
  with d'(2) have "length (run_ops xs d') = length xs \<and>
      list_all (\<lambda>r. raised r = None) (run_ops xs d')"
    by (rule Cons.IH)
  with d'(1) show ?case by simp
qed

text \<open>
  Claim C3. From a buffer whose selection is inactive, after each call of a sequence of
  \<open>move_left\<close> and \<open>move_right\<close> calls without extend the selection is inactive.
\<close>

theorem unshifted_moves_keep_inactive:
  assumes "\<not> is_active (selection d)"
    and "set xs \<subseteq> {Move_left False, Move_right False}"
  shows "list_all (\<lambda>r. \<not> is_active (selection (state_of r))) (run_ops xs d)"
  using assms
proof (induction xs arbitrary: d)
  case Nil
  then show ?case by simp
next
  case (Cons x xs)
  from Cons.prems have x: "x = Move_left False \<or> x = Move_right False" by simp
  have step: "\<not> is_active (selection (state_of (apply_op x d)))"
    using x Cons.prems(1)
    by (auto simp: move_left_unshifted_inactive move_right_unshifted_inactive)
  show ?case
  proof (cases "apply_op x d")
    case (Returns d')
    with step have "\<not> is_active (selection d')" by simp
    moreover from Cons.prems have "set xs \<subseteq> {Move_left False, Move_right False}" by simp
    ultimately have "list_all (\<lambda>r. \<not> is_active (selection (state_of r))) (run_ops xs d')"
      by (rule Cons.IH)
    with Returns step show ?thesis by simp
  next
    case (Raises e d')
    with step show ?thesis by simp
  qed
qed

theorem unshifted_moves_keep_inactive_witness:
  "\<not> is_active (selection buffer_ab_c) \<and>
   set [Move_right False, Move_left False, Move_left False] \<subseteq>
     {Move_left False, Move_right False} \<and>
   map raised (run_ops [Move_right False, Move_left False, Move_left False] buffer_ab_c) =
     [None, None, None] \<and>
   list_all (\<lambda>r. \<not> is_active (selection (state_of r)))
     (run_ops [Move_right False, Move_left False, Move_left False] buffer_ab_c)"
proof -
  have h1: "\<not> is_active (selection buffer_ab_c)"
    by (simp add: buffer_ab_c_def span_def is_active_def)
  have h2: "set [Move_right False, Move_left False, Move_left False] \<subseteq>
      {Move_left False, Move_right False}"
    by simp
  have made: "map raised (run_ops [Move_right False, Move_left False, Move_left False]
      buffer_ab_c) = [None, None, None]"
    by (simp add: buffer_ab_c_def move_right_def move_left_def list_index_def Let_def)
  show ?thesis
    by (rule conjI [OF h1 conjI [OF h2 conjI [OF made
          unshifted_moves_keep_inactive [OF h1 h2]]]])
qed

section \<open>Extending left and back\<close>

text \<open>
  Claim C4. With the cursor at offset \<open>k\<close> of a line, \<open>0 < k \<le>\<close> the line's length, and
  an inactive selection, \<open>move_left\<close> with extend followed by \<open>move_right\<close> with extend
  puts the cursor back where it was and leaves the selection inactive: its anchor and its
  extent are both the starting position. In between the selection is active.
\<close>

theorem extend_left_then_right:
  assumes "cursor_line d = Some l" and "l < length (unnamed d)"
    and "cursor_offset d = k" and "0 < k" and "k \<le> length (unnamed d ! l)"
    and "\<not> is_active (selection d)"
  shows "\<exists>d1 d2. move_left True d = Returns d1 \<and> move_right True d1 = Returns d2 \<and>
           is_active (selection d1) \<and>
           cursor_line d2 = cursor_line d \<and> cursor_offset d2 = cursor_offset d \<and>
           unnamed d2 = unnamed d \<and>
           \<not> is_active (selection d2) \<and>
           start_line (selection d2) = end_line (selection d2) \<and>
           start_offset (selection d2) = end_offset (selection d2) \<and>
           start_line (selection d2) = Some l \<and> start_offset (selection d2) = Some k"
proof -
  define d1 where "d1 = update_selection True l k (d\<lparr>cursor_offset := k - 1\<rparr>)"
  define d2 where "d2 = update_selection True l (k - 1) (d1\<lparr>cursor_offset := k\<rparr>)"
  have left: "move_left True d = Returns d1"
    using assms by (simp add: move_left_def d1_def Let_def)
  have sel1: "selection d1 =
      (selection d)\<lparr>start_line := Some l, end_line := Some l,
                     start_offset := Some k, end_offset := Some (k - 1)\<rparr>"
    using assms by (simp add: d1_def update_selection_def set_anchor_def update_end_def)
  have act1: "is_active (selection d1)"
    using assms by (simp add: sel1 is_active_def)
  have cur1: "cursor_line d1 = Some l" "cursor_offset d1 = k - 1" "unnamed d1 = unnamed d"
    using assms by (simp_all add: d1_def)
  have right: "move_right True d1 = Returns d2"
    using assms cur1 by (simp add: move_right_def list_index_def d2_def Let_def)
  have sel2: "selection d2 = (selection d1)\<lparr>end_line := Some l, end_offset := Some k\<rparr>"
    using act1 cur1 by (simp add: d2_def update_selection_def update_end_def)
  have cur2: "cursor_line d2 = Some l" "cursor_offset d2 = k" "unnamed d2 = unnamed d"
    using cur1 by (simp_all add: d2_def)
  have "\<not> is_active (selection d2)"
    by (simp add: sel2 sel1 is_active_def)
  with left right act1 cur2 assms show ?thesis
    by (simp add: sel2 sel1)
qed

theorem extend_left_then_right_witness:
  "cursor_line buffer_ab_c = Some 0 \<and> 0 < length (unnamed buffer_ab_c) \<and>
   cursor_offset buffer_ab_c = 2 \<and> (0::nat) < 2 \<and> 2 \<le> length (unnamed buffer_ab_c ! 0) \<and>
   \<not> is_active (selection buffer_ab_c) \<and>
   (\<exists>d1 d2. move_left True buffer_ab_c = Returns d1 \<and> move_right True d1 = Returns d2 \<and>
      is_active (selection d1) \<and>
      cursor_line d2 = Some 0 \<and> cursor_offset d2 = 2 \<and>
      unnamed d2 = [''ab'', ''c''] \<and>
      \<not> is_active (selection d2) \<and>
      start_line (selection d2) = end_line (selection d2) \<and>
      start_offset (selection d2) = end_offset (selection d2))"
proof -
  have h: "cursor_line buffer_ab_c = Some 0" "0 < length (unnamed buffer_ab_c)"
    "cursor_offset buffer_ab_c = 2" "(0::nat) < 2" "2 \<le> length (unnamed buffer_ab_c ! 0)"
    "\<not> is_active (selection buffer_ab_c)"
    by (simp_all add: buffer_ab_c_def span_def is_active_def)
  have u: "unnamed buffer_ab_c = [''ab'', ''c'']"
    by (simp add: buffer_ab_c_def)
  from extend_left_then_right [OF h] obtain d1 d2 where
    "move_left True buffer_ab_c = Returns d1" "move_right True d1 = Returns d2"
    "is_active (selection d1)"
    "cursor_line d2 = cursor_line buffer_ab_c" "cursor_offset d2 = cursor_offset buffer_ab_c"
    "unnamed d2 = unnamed buffer_ab_c"
    "\<not> is_active (selection d2)"
    "start_line (selection d2) = end_line (selection d2)"
    "start_offset (selection d2) = end_offset (selection d2)"
    by blast
  with h u show ?thesis by auto
qed


section \<open>The buffer at work\<close>

text \<open>
  The repository's test: typing \<open>h\<close>, \<open>i\<close> and enter into a new editor. Neither
  character is bound, so each reaches \<open>insert_char\<close>; enter is bound to \<open>split_line\<close>.
  The first line is \<open>hi\<close> and an empty second line follows.
\<close>

lemma typing_hi_enter:
  "map (\<lambda>r. (raised r, lines (state_of r), cursor_line (state_of r), cursor_offset (state_of r)))
     (run_ops [Insert_char ''h'', Insert_char ''i'', Split_line] new_editor_buffer) =
   [(None, [''h''], Some 0, 1), (None, [''hi''], Some 0, 2), (None, [''hi'', []], Some 1, 0)]"
  by (simp add: new_editor_buffer_def new_dialog_def add_line_def no_selection_def
      insert_char_def ensure_line_def is_active_def insert_at_cursor_def split_line_def
      list_index_def list_insert_def lines_def Let_def)

text \<open>Splitting \<open>abcd\<close> behind its first character.\<close>

lemma split_line_abcd:
  "split_line \<lparr>unnamed = [''abcd''], cursor_line = Some 0, cursor_offset = 1,
                selection = no_selection\<rparr> =
   Returns \<lparr>unnamed = [''a'', ''bcd''], cursor_line = Some 1, cursor_offset = 0,
            selection = no_selection\<rparr>"
  by (simp add: split_line_def ensure_line_def list_index_def list_insert_def Let_def)

text \<open>
  A selection made by the moves themselves: from the end of \<open>abc\<close>, two extending moves
  to the right reach offset 1 of \<open>def\<close>, and backspace then deletes the selection.
\<close>

lemma select_right_then_delete:
  "map (\<lambda>r. (raised r, lines (state_of r), cursor_line (state_of r), cursor_offset (state_of r),
             is_active (selection (state_of r))))
     (run_ops [Move_right True, Move_right True, Delete_left]
        \<lparr>unnamed = [''abc'', ''def''], cursor_line = Some 0, cursor_offset = 3,
         selection = no_selection\<rparr>) =
   [(None, [''abc'', ''def''], Some 1, 0, True),
    (None, [''abc'', ''def''], Some 1, 1, True),
    (None, [''abcef''], Some 0, 3, False)]"
  by (simp add: move_right_def update_selection_def set_anchor_def update_end_def
      is_active_def no_selection_def delete_left_def delete_selection_def ordered_def
      tuple_le_def py_le_def list_index_def slice_to_def slice_from_def del_slice_def
      finish_delete_def reset_def lines_def Let_def)


section \<open>Backspace at the start of a line\<close>

text \<open>
  The merge branch of \<open>delete_left\<close> in general: at offset \<open>0\<close> of a line that is not
  the first, with no active selection, the line is appended to the one before it and
  removed, and the cursor goes to the join.
\<close>

lemma delete_left_merge:
  assumes "cursor_line d = Some l" and "0 < l" and "l < length (unnamed d)"
    and "cursor_offset d = 0" and "\<not> is_active (selection d)"
  shows "delete_left d =
           Returns (d\<lparr>unnamed := take (l - 1) (unnamed d) @
                                  [unnamed d ! (l - 1) @ unnamed d ! l] @
                                  drop (l + 1) (unnamed d),
                      cursor_line := Some (l - 1),
                      cursor_offset := length (unnamed d ! (l - 1))\<rparr>)"
  using assms
  apply (simp add: delete_left_def list_index_def Let_def del_item_def)
  apply (cases l)
   apply simp
  apply (simp add: take_Suc_conv_app_nth upd_conv_take_nth_drop)
  done

text \<open>
  Claim C5. With the lines \<open>ab\<close> and \<open>cd\<close>, the cursor at line 1, offset 0, and no active
  selection, \<open>delete_left\<close> leaves the one line \<open>abcd\<close> and the cursor at line 0,
  offset 2, the length of \<open>ab\<close>: the line is merged onto the end of the previous one.
\<close>

theorem delete_left_merges_example:
  assumes "unnamed d = [''ab'', ''cd'']" and "cursor_line d = Some 1"
    and "cursor_offset d = 0" and "\<not> is_active (selection d)"
  shows "delete_left d =
           Returns (d\<lparr>unnamed := [''abcd''], cursor_line := Some 0,
                      cursor_offset := length ''ab''\<rparr>) \<and>
         lines (state_of (delete_left d)) = [''abcd''] \<and>
         cursor_line (state_of (delete_left d)) = Some 0 \<and>
         cursor_offset (state_of (delete_left d)) = 2"
  using assms
  by (simp add: delete_left_def list_index_def Let_def del_item_def lines_def)

theorem delete_left_merges_example_witness:
  "unnamed buffer_ab_cd = [''ab'', ''cd''] \<and> cursor_line buffer_ab_cd = Some 1 \<and>
   cursor_offset buffer_ab_cd = 0 \<and> \<not> is_active (selection buffer_ab_cd) \<and>
   delete_left buffer_ab_cd =
     Returns \<lparr>unnamed = [''abcd''], cursor_line = Some 0, cursor_offset = 2,
              selection = no_selection\<rparr>"
proof -
  have h: "unnamed buffer_ab_cd = [''ab'', ''cd'']" "cursor_line buffer_ab_cd = Some 1"
    "cursor_offset buffer_ab_cd = 0" "\<not> is_active (selection buffer_ab_cd)"
    by (simp_all add: buffer_ab_cd_def no_selection_def is_active_def)
  have "delete_left buffer_ab_cd =
      Returns (buffer_ab_cd\<lparr>unnamed := [''abcd''], cursor_line := Some 0,
                 cursor_offset := length ''ab''\<rparr>)"
    using delete_left_merges_example [OF h] by (rule conjunct1)
  also have "buffer_ab_cd\<lparr>unnamed := [''abcd''], cursor_line := Some 0,
      cursor_offset := length ''ab''\<rparr> =
      \<lparr>unnamed = [''abcd''], cursor_line = Some 0, cursor_offset = 2,
       selection = no_selection\<rparr>"
    by (simp add: buffer_ab_cd_def)
  finally show ?thesis using h by simp
qed

section \<open>Deleting a selection\<close>

text \<open>
  The multi-line branch of \<open>_delete_selection\<close> in general: with the ordered endpoints
  on two lines of the buffer, the first line keeps its text before the first offset and
  gets the last line's text from the last offset on; the lines after the first up to and
  including the last are removed; the cursor goes to the first endpoint and the selection
  is reset.
\<close>

lemma delete_selection_multi_line:
  assumes "ordered (selection d) = Inr ((Some fl, Some fo), (Some ll, Some lo))"
    and "fl < ll" and "ll < length (unnamed d)"
  shows "delete_selection d =
           Returns (d\<lparr>unnamed := take fl (unnamed d) @
                                  [take fo (unnamed d ! fl) @ drop lo (unnamed d ! ll)] @
                                  drop (ll + 1) (unnamed d),
                      cursor_line := Some fl, cursor_offset := fo,
                      selection := reset (selection d)\<rparr>)"
proof -
  from assms have fl: "fl < length (unnamed d)" and ne: "fl \<noteq> ll" by simp_all
  define u1 where "u1 = (unnamed d)[fl := take fo (unnamed d ! fl)]"
  have len1: "length u1 = length (unnamed d)" by (simp add: u1_def)
  have last1: "u1 ! ll = unnamed d ! ll" using ne by (simp add: u1_def)
  have del: "del_slice (fl + 1) (ll + 1) u1 =
      take fl (unnamed d) @ [take fo (unnamed d ! fl)] @ drop (ll + 1) (unnamed d)"
    using assms(2) fl by (simp add: del_slice_def u1_def take_Suc_conv_app_nth)
  have "(del_slice (fl + 1) (ll + 1) u1)
          [fl := (del_slice (fl + 1) (ll + 1) u1 ! fl) @ drop lo (unnamed d ! ll)] =
      take fl (unnamed d) @ [take fo (unnamed d ! fl) @ drop lo (unnamed d ! ll)] @
      drop (ll + 1) (unnamed d)"
    using fl by (simp only: del) (simp add: nth_append list_update_append)
  then show ?thesis
    using assms fl ne len1 last1
    by (simp add: delete_selection_def list_index_def Let_def finish_delete_def
        slice_to_def slice_from_def u1_def [symmetric])
qed

text \<open>
  Claim C1, as the code has it. With the lines \<open>abc\<close> and \<open>def\<close>, the cursor at line 0,
  offset 3, and a selection whose ordered endpoints are line 0, offset 3 and line 1,
  offset 1, deleting the selection leaves the one line \<open>abcef\<close>, the cursor at line 0,
  offset 3, and the selection reset: the first line keeps its first 3 characters, all of
  \<open>abc\<close>, and gets \<open>ef\<close>, the last line from offset 1 on; line 1 is removed.
\<close>

theorem delete_selection_example:
  assumes "unnamed d = [''abc'', ''def'']"
    and "cursor_line d = Some 0" and "cursor_offset d = 3"
    and "ordered (selection d) = Inr ((Some 0, Some 3), (Some 1, Some 1))"
  shows "delete_selection d =
           Returns (d\<lparr>unnamed := [take 3 ''abc'' @ drop 1 ''def''],
                      cursor_line := Some 0, cursor_offset := 3,
                      selection := reset (selection d)\<rparr>) \<and>
         lines (state_of (delete_selection d)) = [''abcef''] \<and>
         cursor_line (state_of (delete_selection d)) = Some 0 \<and>
         cursor_offset (state_of (delete_selection d)) = 3 \<and>
         selection (state_of (delete_selection d)) = no_selection"
  using assms
  by (simp add: delete_selection_def list_index_def Let_def del_slice_def finish_delete_def
      slice_to_def slice_from_def lines_def reset_eq_no_selection)

theorem delete_selection_example_witness:
  "unnamed buffer_abc_def = [''abc'', ''def''] \<and>
   cursor_line buffer_abc_def = Some 0 \<and> cursor_offset buffer_abc_def = 3 \<and>
   ordered (selection buffer_abc_def) = Inr ((Some 0, Some 3), (Some 1, Some 1)) \<and>
   lines (state_of (delete_selection buffer_abc_def)) = [''abcef''] \<and>
   cursor_line (state_of (delete_selection buffer_abc_def)) = Some 0 \<and>
   cursor_offset (state_of (delete_selection buffer_abc_def)) = 3 \<and>
   selection (state_of (delete_selection buffer_abc_def)) = no_selection"
proof -
  have h: "unnamed buffer_abc_def = [''abc'', ''def'']"
    "cursor_line buffer_abc_def = Some 0" "cursor_offset buffer_abc_def = 3"
    "ordered (selection buffer_abc_def) = Inr ((Some 0, Some 3), (Some 1, Some 1))"
    by (simp_all add: buffer_abc_def_def span_def ordered_def tuple_le_def py_le_def)
  from delete_selection_example [OF h] have
    "lines (state_of (delete_selection buffer_abc_def)) = [''abcef''] \<and>
     cursor_line (state_of (delete_selection buffer_abc_def)) = Some 0 \<and>
     cursor_offset (state_of (delete_selection buffer_abc_def)) = 3 \<and>
     selection (state_of (delete_selection buffer_abc_def)) = no_selection"
    by (rule conjunct2)
  with h show ?thesis by simp
qed

text \<open>
  The same input refutes the claim as it was stated, with the line \<open>aef\<close>: the call
  returns, and the line it leaves is \<open>abcef\<close>.
\<close>

theorem delete_selection_not_aef:
  "ordered (selection buffer_abc_def) = Inr ((Some 0, Some 3), (Some 1, Some 1)) \<and>
   raised (delete_selection buffer_abc_def) = None \<and>
   lines (state_of (delete_selection buffer_abc_def)) = [''abcef''] \<and>
   lines (state_of (delete_selection buffer_abc_def)) \<noteq> [''aef'']"
  by (simp add: buffer_abc_def_def span_def ordered_def tuple_le_def py_le_def
      delete_selection_def list_index_def Let_def del_slice_def finish_delete_def
      slice_to_def slice_from_def lines_def)


section \<open>The buffer never loses its last line\<close>

lemma delete_selection_nonempty:
  assumes "unnamed d \<noteq> []"
  shows "unnamed (state_of (delete_selection d)) \<noteq> []"
proof (cases "ordered (selection d)")
  case (Inl e)
  with assms show ?thesis by (simp add: delete_selection_def)
next
  case (Inr p)
  obtain s_line s_off e_line e_off where p: "p = ((s_line, s_off), (e_line, e_off))"
    by (metis surj_pair)
  show ?thesis
  proof (cases "list_index (unnamed d) s_line")
    case (Inl e)
    with Inr p assms show ?thesis by (auto simp: delete_selection_def)
  next
    case sl: (Inr sl)
    then have sl_lt: "sl < length (unnamed d)" by (simp add: list_index_Inr)
    show ?thesis
    proof (cases "s_line = e_line")
      case True
      with Inr p sl assms show ?thesis by (simp add: delete_selection_def Let_def)
    next
      case False
      with Inr p sl sl_lt assms show ?thesis
        by (auto simp: delete_selection_def Let_def del_slice_def split: sum.splits)
    qed
  qed
qed

lemma moves_unnamed:
  "unnamed (state_of (move_left b d)) = unnamed d"
  "unnamed (state_of (move_right b d)) = unnamed d"
  "unnamed (state_of (move_up b d)) = unnamed d"
  "unnamed (state_of (move_down b d)) = unnamed d"
  "unnamed (state_of (move_home b d)) = unnamed d"
  "unnamed (state_of (move_end b d)) = unnamed d"
  by (simp_all add: move_left_def move_right_def move_up_def move_down_def move_home_def
      move_end_def Let_def split: option.splits sum.splits)

lemma insert_at_cursor_length:
  "length (unnamed (state_of (insert_at_cursor ch d))) = length (unnamed d)"
  by (simp add: insert_at_cursor_def Let_def split: sum.splits)

lemma insert_char_nonempty:
  assumes "unnamed d \<noteq> []"
  shows "unnamed (state_of (insert_char ch d)) \<noteq> []"
proof -
  have e: "unnamed (ensure_line d) \<noteq> []"
    using assms by (simp add: ensure_line_def add_line_def)
  have a: "\<And>d'. unnamed d' \<noteq> [] \<Longrightarrow> unnamed (state_of (insert_at_cursor ch d')) \<noteq> []"
    using insert_at_cursor_length by (metis length_0_conv)
  show ?thesis
  proof (cases "is_active (selection (ensure_line d))")
    case False
    with e a show ?thesis by (simp add: insert_char_def Let_def)
  next
    case True
    from e have "unnamed (state_of (delete_selection (ensure_line d))) \<noteq> []"
      by (rule delete_selection_nonempty)
    with True a show ?thesis
      by (cases "delete_selection (ensure_line d)") (simp_all add: insert_char_def Let_def)
  qed
qed

lemma delete_left_nonempty:
  assumes "unnamed d \<noteq> []"
  shows "unnamed (state_of (delete_left d)) \<noteq> []"
proof (cases "is_active (selection d)")
  case True
  with assms show ?thesis by (simp add: delete_left_def delete_selection_nonempty)
next
  case False
  with assms show ?thesis
    by (auto simp: delete_left_def Let_def del_item_def list_index_def
        split: option.splits sum.splits if_splits)
qed

lemma delete_right_nonempty:
  assumes "unnamed d \<noteq> []"
  shows "unnamed (state_of (delete_right d)) \<noteq> []"
proof (cases "is_active (selection d)")
  case True
  with assms show ?thesis by (simp add: delete_right_def delete_selection_nonempty)
next
  case False
  with assms show ?thesis
    by (auto simp: delete_right_def Let_def del_item_def list_index_def
        split: option.splits sum.splits if_splits)
qed

lemma split_line_nonempty: "unnamed (state_of (split_line d)) \<noteq> [] \<or> unnamed d = []"
  by (auto simp: split_line_def Let_def list_insert_def ensure_line_def add_line_def
      split: sum.splits)

lemma apply_op_nonempty:
  assumes "unnamed d \<noteq> []"
  shows "unnamed (state_of (apply_op x d)) \<noteq> []"
  using assms split_line_nonempty [of d]
  by (cases x)
    (simp_all add: moves_unnamed insert_char_nonempty delete_left_nonempty
      delete_right_nonempty delete_selection_nonempty add_line_def)

text \<open>Over a whole run, whatever the calls: every state a call leaves has a line.\<close>

lemma run_ops_nonempty:
  "unnamed d \<noteq> [] \<Longrightarrow> list_all (\<lambda>r. unnamed (state_of r) \<noteq> []) (run_ops xs d)"
proof (induction xs arbitrary: d)
  case Nil
  then show ?case by simp
next
  case (Cons x xs)
  from Cons.prems have "unnamed (state_of (apply_op x d)) \<noteq> []" by (rule apply_op_nonempty)
  with Cons.IH show ?case by (cases "apply_op x d") simp_all
qed

text \<open>
  Claim C6. On a buffer with at least one line, whose cursor line is a line of the buffer
  and whose cursor offset is at most that line's length, every operation (the cursor
  moves, \<open>add_line\<close>, \<open>insert_char\<close>, \<open>delete_left\<close>, \<open>delete_right\<close>, \<open>split_line\<close>
  and the deletion of the selection) leaves a buffer with at least one line, whether the
  call returns or raises.
\<close>

theorem buffer_keeps_a_line:
  assumes "1 \<le> length (unnamed d)"
    and "cursor_line d = Some l" and "l < length (unnamed d)"
    and "cursor_offset d \<le> length (unnamed d ! l)"
  shows "1 \<le> length (unnamed (state_of (apply_op x d)))"
proof -
  from assms(1) have "unnamed d \<noteq> []" by auto
  then have "unnamed (state_of (apply_op x d)) \<noteq> []" by (rule apply_op_nonempty)
  then show ?thesis by (simp add: Suc_le_eq)
qed

theorem buffer_keeps_a_line_witness:
  "1 \<le> length (unnamed buffer_ab_cd) \<and> cursor_line buffer_ab_cd = Some 1 \<and>
   1 < length (unnamed buffer_ab_cd) \<and>
   cursor_offset buffer_ab_cd \<le> length (unnamed buffer_ab_cd ! 1) \<and>
   1 \<le> length (unnamed (state_of (apply_op Delete_left buffer_ab_cd))) \<and>
   1 \<le> length (unnamed (state_of (apply_op Delete_selection buffer_ab_cd)))"
proof -
  have h: "1 \<le> length (unnamed buffer_ab_cd)" "cursor_line buffer_ab_cd = Some 1"
    "1 < length (unnamed buffer_ab_cd)"
    "cursor_offset buffer_ab_cd \<le> length (unnamed buffer_ab_cd ! 1)"
    by (simp_all add: buffer_ab_cd_def)
  show ?thesis
    by (rule conjI [OF h(1) conjI [OF h(2) conjI [OF h(3) conjI [OF h(4)
          conjI [OF buffer_keeps_a_line [OF h, of Delete_left]
            buffer_keeps_a_line [OF h, of Delete_selection]]]]]])
qed

section \<open>Enter leaves the selection alone\<close>

lemma insert_at_cursor_selection:
  "selection (state_of (insert_at_cursor ch d)) = selection d"
  by (simp add: insert_at_cursor_def Let_def split: sum.splits)

lemma delete_selection_Returns:
  "delete_selection d = Returns d' \<Longrightarrow> selection d' = reset (selection d)"
  by (auto simp: delete_selection_def Let_def
      split: sum.splits prod.splits if_splits dest: finish_delete_Returns)

text \<open>
  Claim C9. \<open>split_line\<close> leaves the selection as it was, in every state and whether it
  returns or raises: start and end, and so \<open>is_active\<close>, are the same before and after.
  It removes no text either: the characters of the buffer, read line after line, are the
  same before and after. \<open>insert_char\<close> differs: called with an active selection, it
  deletes the selection first, so when it returns the selection is reset.
\<close>

theorem split_line_keeps_selection:
  "selection (state_of (split_line d)) = selection d \<and>
   is_active (selection (state_of (split_line d))) = is_active (selection d) \<and>
   concat (lines (state_of (split_line d))) = concat (lines d) \<and>
   (\<forall>ch d'. is_active (selection d) \<and> insert_char ch d = Returns d' \<longrightarrow>
      selection d' = no_selection)"
proof -
  have sel: "selection (ensure_line d) = selection d"
    by (simp add: ensure_line_def add_line_def)
  have same_text: "concat (unnamed (ensure_line d)) = concat (unnamed d)"
    by (simp add: ensure_line_def add_line_def)
  have split: "selection (state_of (split_line d)) = selection d \<and>
      concat (lines (state_of (split_line d))) = concat (lines d)"
  proof (cases "list_index (unnamed (ensure_line d)) (cursor_line (ensure_line d))")
    case (Inl e)
    with sel same_text show ?thesis by (simp add: split_line_def lines_def)
  next
    case (Inr n)
    then have n: "n < length (unnamed (ensure_line d))" by (simp add: list_index_Inr)
    define u where "u = unnamed (ensure_line d)"
    define k where "k = cursor_offset (ensure_line d)"
    have "concat (list_insert (n + 1) (drop k (u ! n)) (u[n := take k (u ! n)])) = concat u"
    proof -
      have "u = take n u @ (u ! n) # drop (Suc n) u"
        using n by (simp add: u_def id_take_nth_drop)
      then have "concat u = concat (take n u) @ (u ! n) @ concat (drop (Suc n) u)"
        by (metis concat.simps(2) concat_append)
      moreover have "list_insert (n + 1) (drop k (u ! n)) (u[n := take k (u ! n)]) =
          take n u @ [take k (u ! n), drop k (u ! n)] @ drop (Suc n) u"
        using n by (simp add: u_def list_insert_def upd_conv_take_nth_drop)
      ultimately show ?thesis by simp
    qed
    with Inr sel same_text show ?thesis
      by (simp add: split_line_def lines_def Let_def u_def k_def)
  qed
  have ins: "selection d' = no_selection"
    if "is_active (selection d)" and "insert_char ch d = Returns d'" for ch d'
  proof -
    from that(1) sel have act: "is_active (selection (ensure_line d))" by simp
    with that(2) obtain d2 where d2: "delete_selection (ensure_line d) = Returns d2"
      and ret: "insert_at_cursor ch d2 = Returns d'"
      by (cases "delete_selection (ensure_line d)") (simp_all add: insert_char_def Let_def)
    from d2 have "selection d2 = no_selection"
      by (simp add: delete_selection_Returns reset_eq_no_selection)
    moreover from ret have "selection d' = selection d2"
      using insert_at_cursor_selection [of ch d2] by simp
    ultimately show ?thesis by simp
  qed
  from split ins show ?thesis by auto
qed

theorem split_line_keeps_selection_witness:
  "is_active (selection buffer_abc_selected) \<and>
   split_line buffer_abc_selected =
     Returns \<lparr>unnamed = [''ab'', ''c''], cursor_line = Some 1, cursor_offset = 0,
              selection = span (0, 1) (0, 2)\<rparr> \<and>
   selection (state_of (split_line buffer_abc_selected)) = selection buffer_abc_selected \<and>
   insert_char ''x'' buffer_abc_selected =
     Returns \<lparr>unnamed = [''axc''], cursor_line = Some 0, cursor_offset = 2,
              selection = no_selection\<rparr> \<and>
   selection (state_of (insert_char ''x'' buffer_abc_selected)) = no_selection"
proof -
  have a: "is_active (selection buffer_abc_selected)"
    by (simp add: buffer_abc_selected_def span_def is_active_def)
  have s: "split_line buffer_abc_selected =
      Returns \<lparr>unnamed = [''ab'', ''c''], cursor_line = Some 1, cursor_offset = 0,
               selection = span (0, 1) (0, 2)\<rparr>"
    by (simp add: buffer_abc_selected_def split_line_def ensure_line_def list_index_def
        list_insert_def Let_def)
  have i: "insert_char ''x'' buffer_abc_selected =
      Returns \<lparr>unnamed = [''axc''], cursor_line = Some 0, cursor_offset = 2,
               selection = no_selection\<rparr>"
    by (simp add: buffer_abc_selected_def insert_char_def ensure_line_def span_def
        is_active_def delete_selection_def ordered_def tuple_le_def py_le_def list_index_def
        slice_to_def slice_from_def finish_delete_def insert_at_cursor_def Let_def
        reset_eq_no_selection)
  note t = split_line_keeps_selection [of buffer_abc_selected]
  from t have k: "selection (state_of (split_line buffer_abc_selected)) =
      selection buffer_abc_selected"
    by (rule conjunct1)
  from t a i have r: "selection (state_of (insert_char ''x'' buffer_abc_selected)) =
      no_selection"
    by simp
  show ?thesis
    by (rule conjI [OF a conjI [OF s conjI [OF k conjI [OF i r]]]])
qed


section \<open>Canonical keys and the shift fallback\<close>

text \<open>
  Claim C2. A key event with key \<open>a\<close>, shift set and no other modifier has the canonical
  string \<open>shift+a\<close>; and with a binding table that has no entry for \<open>shift+a\<close> but one
  for \<open>a\<close>, dispatching the event calls the handler bound to \<open>a\<close>, not \<open>unbound_key\<close>.
\<close>

theorem shift_a_falls_back:
  assumes "key mk = ''a''" and "shift mk" and "\<not> ctrl mk" and "\<not> alt mk" and "\<not> meta mk"
  shows "canon mk = ''shift+a'' \<and>
         (\<forall>bindings f. bindings ''shift+a'' = None \<and> bindings ''a'' = Some f \<longrightarrow>
            dispatch bindings mk = Func f mk \<and> dispatch bindings mk \<noteq> Unbound_key mk)"
proof -
  have c: "canon mk = ''shift+a''"
    using assms by (simp add: canon_def lower_def lower_char_def)
  have r: "replace ''shift+'' [] ''shift+a'' = ''a''"
    by simp
  show ?thesis
    using assms(2) by (simp add: c dispatch_def r Let_def)
qed

theorem shift_a_falls_back_witness:
  "key shift_a = ''a'' \<and> shift shift_a \<and> \<not> ctrl shift_a \<and> \<not> alt shift_a \<and>
   \<not> meta shift_a \<and>
   canon shift_a = ''shift+a'' \<and>
   [''a'' \<mapsto> ''command_a''] ''shift+a'' = None \<and>
   [''a'' \<mapsto> ''command_a''] ''a'' = Some ''command_a'' \<and>
   dispatch [''a'' \<mapsto> ''command_a''] shift_a = Func ''command_a'' shift_a"
proof -
  have h: "key shift_a = ''a''" "shift shift_a" "\<not> ctrl shift_a" "\<not> alt shift_a"
    "\<not> meta shift_a"
    by (simp_all add: shift_a_def)
  have b: "[''a'' \<mapsto> ''command_a''] ''shift+a'' = None"
    "[''a'' \<mapsto> ''command_a''] ''a'' = Some ''command_a''"
    by simp_all
  note t = shift_a_falls_back [OF h]
  from t have c: "canon shift_a = ''shift+a''"
    by (rule conjunct1)
  note fallback = t [THEN conjunct2, THEN spec, THEN spec, THEN mp]
  from fallback [OF conjI [OF b]]
  have d: "dispatch [''a'' \<mapsto> ''command_a''] shift_a = Func ''command_a'' shift_a"
    by (rule conjunct1)
  show ?thesis
    by (rule conjI [OF h(1) conjI [OF h(2) conjI [OF h(3) conjI [OF h(4) conjI [OF h(5)
          conjI [OF c conjI [OF b(1) conjI [OF b(2) d]]]]]]]])
qed

section \<open>Activating an unregistered name\<close>

text \<open>
  Claim C7. \<open>activate\<close> of a name with no registered applet class raises the error for
  an unknown name, \<open>KeyError(name)\<close>, and leaves the anchor as it was: no applet is
  created, both registries and the active name are unchanged, and nothing is started or
  notified.
\<close>

theorem activate_unregistered:
  assumes "applet_classes a name = None"
  shows "activate name a = Raises (KeyError name) a"
  using assms by (simp add: activate_def)

theorem activate_unregistered_witness:
  "applet_classes anchor_with_editor ''shell'' = None \<and>
   activate ''shell'' anchor_with_editor = Raises (KeyError ''shell'') anchor_with_editor \<and>
   applets (state_of (activate ''shell'' anchor_with_editor)) ''shell'' = None \<and>
   active_name (state_of (activate ''shell'' anchor_with_editor)) = Some ''editor''"
proof -
  have h: "applet_classes anchor_with_editor ''shell'' = None"
    by (simp add: anchor_with_editor_def)
  note t = activate_unregistered [OF h]
  have s1: "applets (state_of (activate ''shell'' anchor_with_editor)) ''shell'' = None"
    unfolding t by (simp add: anchor_with_editor_def)
  have s2: "active_name (state_of (activate ''shell'' anchor_with_editor)) = Some ''editor''"
    unfolding t by (simp add: anchor_with_editor_def)
  show ?thesis
    by (rule conjI [OF h conjI [OF t conjI [OF s1 s2]]])
qed

section \<open>Saving and reading back\<close>

lemma join_Cons: "xs \<noteq> [] \<Longrightarrow> join sep (x # xs) = x @ sep @ join sep xs"
  by (cases xs) simp_all

lemma split_on_no_sep: "c \<notin> set l \<Longrightarrow> split_on c l = [l]"
  by (induction l) auto

lemma split_on_append_sep:
  "c \<notin> set l \<Longrightarrow> split_on c (l @ c # rest) = l # split_on c rest"
  by (induction l) auto

lemma split_on_join:
  "ls \<noteq> [] \<Longrightarrow> list_all (\<lambda>l. c \<notin> set l) ls \<Longrightarrow> split_on c (join [c] ls) = ls"
proof (induction ls rule: list_nonempty_induct)
  case (single x)
  then show ?case by (simp add: split_on_no_sep)
next
  case (cons x xs)
  then show ?case by (simp add: join_Cons split_on_append_sep)
qed

text \<open>What \<open>command_save\<close> writes: the lines of the buffer joined by newlines.\<close>

lemma command_save_writes:
  assumes "command_save mk (e, files) = (e', files')"
  shows "\<exists>path. filename e' = Some path \<and> buffer e' = buffer e \<and>
           files' path = Some (join [newline] (lines (buffer e)))"
  using assms by (auto simp: command_save_def Let_def)

text \<open>
  Claim C8. For a non-empty sequence of lines none of which contains a newline
  character, joining the lines with newlines, as \<open>command_save\<close> writes them, and
  splitting the result at the newlines gives the sequence back, empty lines at the end
  included.
\<close>

theorem join_split_roundtrip:
  assumes "ls \<noteq> []" and "list_all (\<lambda>l. newline \<notin> set l) ls"
  shows "split_on newline (join [newline] ls) = ls"
  using assms by (rule split_on_join)

theorem join_split_roundtrip_witness:
  "[''ab'', [], ''c'', [], []] \<noteq> [] \<and>
   list_all (\<lambda>l. newline \<notin> set l) [''ab'', [], ''c'', [], []] \<and>
   split_on newline (join [newline] [''ab'', [], ''c'', [], []]) = [''ab'', [], ''c'', [], []]"
proof -
  have h: "[''ab'', [], ''c'', [], []] \<noteq> []"
    "list_all (\<lambda>l. newline \<notin> set l) [''ab'', [], ''c'', [], []]"
    by (simp_all add: newline_def)
  show ?thesis
    by (rule conjI [OF h(1) conjI [OF h(2) join_split_roundtrip [OF h]]])
qed

end
